theory Spec2Isabelle
  imports Complex_Main
begin

text \<open>
  A shallow embedding of \<open>sknetwork.clustering.bilouvain\<close> (the class \<open>BiLouvain\<close>)
  and \<open>sknetwork.clustering.kmeans\<close> (the classes \<open>KMeans\<close> and \<open>BiKMeans\<close>),
  with the cluster reindexer, the aggregation step and the two graph constructions they
  rely on. Objects are records, a method takes the object and returns the object after
  the call, an exception is a value of type \<open>error\<close>, and the modules that the two
  source files import are parameters of the methods.
\<close>

section \<open>Errors and dynamically typed arguments\<close>

text \<open>
  The exceptions the clustering classes raise. \<open>OtherError\<close> stands for whatever
  else a collaborator outside the two modelled modules may raise.
\<close>

datatype error = TypeError | ValueError | OtherError

text \<open>
  An optimizer object: either the greedy modularity optimizer built by the constructor
  (resolution, tolerance, engine) or some other instance of the \<open>Optimizer\<close> class,
  identified by a number.
\<close>

datatype optimizer = GreedyModularity real real string | CustomOptimizer nat

text \<open>
  Python values that can be passed where the constructor inspects the run-time type.
  \<open>type(True)\<close> is \<open>bool\<close>, not \<open>int\<close>, hence a constructor of its own.
\<close>

datatype pyobj =
    PyInt int
  | PyBool bool
  | PyFloat real
  | PyStr string
  | PyNone
  | PyOptimizer optimizer



section \<open>Sparse matrices\<close>

text \<open>
  A sparse matrix is its shape and its stored values, one triple (row, column, value)
  per stored value; \<open>data\<close> is the array of stored values. Weights are real numbers:
  floating-point rounding is not modelled.
\<close>

record sparse_matrix =
  shape :: "nat \<times> nat"
  entries :: "(nat \<times> nat \<times> real) list"

definition data :: "sparse_matrix \<Rightarrow> real list" where
  "data m = map (\<lambda>(i, j, w). w) (entries m)"

text \<open>\<open>m.data.sum()\<close>: the total edge weight.\<close>

definition total_weight :: "sparse_matrix \<Rightarrow> real" where
  "total_weight m = sum_list (data m)"

text \<open>\<open>m.T\<close>.\<close>

definition transposed :: "sparse_matrix \<Rightarrow> sparse_matrix" where
  "transposed m =
     \<lparr>shape = (snd (shape m), fst (shape m)),
      entries = map (\<lambda>(i, j, w). (j, i, w)) (entries m)\<rparr>"

text \<open>\<open>m * c\<close> for a scalar \<open>c\<close>: every stored value is multiplied by \<open>c\<close>.\<close>

definition scale_matrix :: "sparse_matrix \<Rightarrow> real \<Rightarrow> sparse_matrix" where
  "scale_matrix m c = m\<lparr>entries := map (\<lambda>(i, j, w). (i, j, w * c)) (entries m)\<rparr>"

text \<open>Every stored value lies inside the shape.\<close>

definition well_formed :: "sparse_matrix \<Rightarrow> bool" where
  "well_formed m =
     list_all (\<lambda>(i, j, w). i < fst (shape m) \<and> j < snd (shape m)) (entries m)"

text \<open>
  The weighted graph of the data model: a square matrix whose stored values lie inside
  the shape and are non-negative.
\<close>

definition weighted_graph :: "sparse_matrix \<Rightarrow> bool" where
  "weighted_graph g =
     (fst (shape g) = snd (shape g) \<and>
      list_all (\<lambda>(i, j, w). i < fst (shape g) \<and> j < snd (shape g) \<and> 0 \<le> w) (entries g))"

section \<open>Cluster Reindexer\<close>

text \<open>The distinct values of a list, in order of first appearance.\<close>

fun first_seen :: "'a list \<Rightarrow> 'a list" where
  "first_seen [] = []"
| "first_seen (x # xs) = x # filter (\<lambda>y. y \<noteq> x) (first_seen xs)"

text \<open>The first position of a value in a list (the length of the list when absent).\<close>

fun index_of :: "'a list \<Rightarrow> 'a \<Rightarrow> nat" where
  "index_of [] y = 0"
| "index_of (x # xs) y = (if x = y then 0 else Suc (index_of xs y))"

definition cluster_size :: "nat list \<Rightarrow> nat \<Rightarrow> nat" where
  "cluster_size labels l = count_list labels l"

text \<open>
  Modelled from the spec: \<open>sknetwork.clustering.postprocessing\<close> is not among the
  sources. Section 4.5: clusters are ordered by descending size, ties broken by first-seen
  order (the cluster holding the smallest node index first). The sort is the stable
  insertion sort \<open>sort_key\<close> applied to the clusters in first-seen order.
\<close>

definition sorted_clusters :: "nat list \<Rightarrow> nat list" where
  "sorted_clusters labels =
     sort_key (\<lambda>l. - int (cluster_size labels l)) (first_seen labels)"

text \<open>
  Modelled from the spec: \<open>reindex_clusters\<close> of
  \<open>sknetwork.clustering.postprocessing\<close> is not among the sources. Section 4.5: a pure
  function producing a dense labeling starting at 0; the new label of a cluster is its
  rank in \<open>sorted_clusters\<close>.
\<close>

definition reindex_clusters :: "nat list \<Rightarrow> nat list" where
  "reindex_clusters labels = map (index_of (sorted_clusters labels)) labels"

section \<open>Aggregation Engine\<close>

text \<open>
  Modelled from the spec: the aggregation code of \<open>sknetwork.clustering.louvain\<close> is not
  among the sources. Section 4.2: cluster ids are renumbered densely, \<open>0..k-1\<close>, in order
  of first appearance among the input labels.
\<close>

definition dense_ids :: "nat list \<Rightarrow> nat list" where
  "dense_ids labels = map (index_of (first_seen labels)) labels"

text \<open>The edges from cluster \<open>c1\<close> to cluster \<open>c2\<close>.\<close>

definition block ::
  "(nat \<times> nat \<times> real) list \<Rightarrow> nat \<Rightarrow> nat \<Rightarrow> (nat \<times> nat \<times> real) list" where
  "block es c1 c2 = filter (\<lambda>(a, b, w). a = c1 \<and> b = c2) es"

text \<open>
  The stored value of the coarse graph at \<open>(c1, c2)\<close>: the sum of the weights of the
  edges from \<open>c1\<close> to \<open>c2\<close>; nothing is stored where there is no such edge.
\<close>

definition coarse_entry ::
  "(nat \<times> nat \<times> real) list \<Rightarrow> nat \<Rightarrow> nat \<Rightarrow> (nat \<times> nat \<times> real) list" where
  "coarse_entry es c1 c2 =
     (if block es c1 c2 = [] then []
      else [(c1, c2, sum_list (map (\<lambda>(a, b, w). w) (block es c1 c2)))])"

text \<open>
  Modelled from the spec: the aggregation code of \<open>sknetwork.clustering.louvain\<close> is not
  among the sources. Section 4.2: a cluster-by-cluster weighted graph where entry
  \<open>(c1, c2)\<close> is the sum of all edge weights between nodes labeled \<open>c1\<close> and nodes
  labeled \<open>c2\<close> in the fine graph, self-entries included.
\<close>

definition aggregate_graph :: "sparse_matrix \<Rightarrow> nat list \<Rightarrow> sparse_matrix" where
  "aggregate_graph graph labels =
     (let ids = dense_ids labels;
          k = length (first_seen labels);
          es = map (\<lambda>(i, j, w). (ids ! i, ids ! j, w)) (entries graph)
      in \<lparr>shape = (k, k),
          entries =
            concat (map (\<lambda>c1. concat (map (\<lambda>c2. coarse_entry es c1 c2) [0..<k])) [0..<k])\<rparr>)"

text \<open>
  Modelled from the spec: the aggregation code of \<open>sknetwork.clustering.louvain\<close> is not
  among the sources. Section 4.2: coarse weight vectors sum the fine per-node weights
  within each cluster.
\<close>

definition aggregate_weights :: "real list \<Rightarrow> nat list \<Rightarrow> real list" where
  "aggregate_weights weights labels =
     (let ids = dense_ids labels;
          k = length (first_seen labels)
      in map (\<lambda>c. sum_list (map (\<lambda>i. weights ! i)
                     (filter (\<lambda>i. ids ! i = c) [0..<length labels])))
           [0..<k])"

text \<open>
  Modelled from the spec: the aggregation code of \<open>sknetwork.clustering.louvain\<close> is not
  among the sources. Section 4.2, contract
  \<open>aggregate(graph, labels) \<rightarrow> (coarse_graph, coarse_row_weights, coarse_col_weights)\<close>;
  the two null-model weight vectors of the fine graph are passed next to its adjacency.
\<close>

definition aggregate ::
  "sparse_matrix \<Rightarrow> real list \<Rightarrow> real list \<Rightarrow> nat list
     \<Rightarrow> sparse_matrix \<times> real list \<times> real list" where
  "aggregate graph row_weights col_weights labels =
     (aggregate_graph graph labels,
      aggregate_weights row_weights labels,
      aggregate_weights col_weights labels)"

section \<open>Graphs of a biadjacency matrix\<close>

text \<open>
  Modelled from the spec: \<open>sknetwork.utils.adjacency_formats\<close> is not among the sources.
  Section 4.4: a single undirected graph over \<open>n+p\<close> nodes obtained by symmetrizing the
  biadjacency, rows occupying the first \<open>n\<close> ids and columns the last \<open>p\<close>.
\<close>

definition bipartite2undirected :: "sparse_matrix \<Rightarrow> sparse_matrix" where
  "bipartite2undirected biadjacency =
     (let (n, p) = shape biadjacency
      in \<lparr>shape = (n + p, n + p),
          entries = map (\<lambda>(i, j, w). (i, n + j, w)) (entries biadjacency)
                  @ map (\<lambda>(i, j, w). (n + j, i, w)) (entries biadjacency)\<rparr>)"

text \<open>
  Modelled from the spec: \<open>sknetwork.utils.adjacency_formats\<close> is not among the sources.
  Section 4.4: a directed graph over \<open>n+p\<close> nodes that only has edges in the
  row-to-column direction, one edge from row \<open>i\<close> to column \<open>n+j\<close> for each stored
  value at \<open>(i, j)\<close>. The transpose that the section mentions for the column-to-row
  direction is the transpose of this graph; it is not stored in it.
\<close>

definition bipartite2directed :: "sparse_matrix \<Rightarrow> sparse_matrix" where
  "bipartite2directed biadjacency =
     (let (n, p) = shape biadjacency
      in \<lparr>shape = (n + p, n + p),
          entries = map (\<lambda>(i, j, w). (i, n + j, w)) (entries biadjacency)\<rparr>)"

text \<open>
  An edge between the row block (ids below \<open>n\<close>) and the column block (ids from \<open>n\<close>
  to \<open>n+p-1\<close>), in either direction.
\<close>

definition between_blocks :: "nat \<Rightarrow> nat \<Rightarrow> nat \<Rightarrow> nat \<Rightarrow> bool" where
  "between_blocks n p i j =
     ((i < n \<and> n \<le> j \<and> j < n + p) \<or> (j < n \<and> n \<le> i \<and> i < n + p))"

section \<open>KMeans and BiKMeans\<close>

type_synonym ndarray = "real list list"

text \<open>
  The embedding method object: the attributes that the clustering reads after the method
  has been fitted.
\<close>

record base_embedding =
  embedding' :: ndarray
  embedding_row' :: ndarray
  embedding_col' :: ndarray

text \<open>
  An attribute that the source writes with a trailing underscore, \<open>labels_\<close>, is written
  with a prime, \<open>labels'\<close>.
\<close>

record kmeans =
  n_clusters :: int
  embedding_method :: base_embedding
  sort_clusters :: bool
  return_membership :: bool
  return_adjacency :: bool
  labels' :: "nat list option"
  membership' :: "sparse_matrix option"
  adjacency' :: "sparse_matrix option"

record bikmeans = kmeans +
  co_cluster :: bool
  return_biadjacency :: bool
  labels_row' :: "nat list option"
  labels_col' :: "nat list option"
  membership_row' :: "sparse_matrix option"
  membership_col' :: "sparse_matrix option"
  biadjacency' :: "sparse_matrix option"

text \<open>
  The collaborators of the two \<open>fit\<close> methods, none of them among the sources: the
  embedding method (\<open>fit_transform\<close> and \<open>fit\<close>, both returning the fitted method
  object), the dense k-means routine (its \<open>labels_\<close> after \<open>fit\<close>), the membership
  matrix of a labeling, row normalization and the matrix product.
\<close>

record clustering_env =
  fit_transform :: "base_embedding \<Rightarrow> sparse_matrix \<Rightarrow> base_embedding \<times> ndarray"
  embedding_fit :: "base_embedding \<Rightarrow> sparse_matrix \<Rightarrow> base_embedding"
  KMeansDense :: "int \<Rightarrow> ndarray \<Rightarrow> nat list"
  membership_matrix :: "nat list \<Rightarrow> sparse_matrix"
  normalize_m :: "sparse_matrix \<Rightarrow> sparse_matrix"
  dot :: "sparse_matrix \<Rightarrow> sparse_matrix \<Rightarrow> sparse_matrix"

text \<open>
  \<open>KMeans.fit\<close>. The result is the object after the call and the exception raised, if
  any.
\<close>

definition KMeans_fit ::
  "clustering_env \<Rightarrow> kmeans \<Rightarrow> sparse_matrix \<Rightarrow> kmeans \<times> error option" where
  "KMeans_fit env self adjacency =
     (if n_clusters self > int (fst (shape adjacency)) then (self, Some ValueError)
      else
        let (method, embedding) = fit_transform env (embedding_method self) adjacency;
            self = self\<lparr>embedding_method := method\<rparr>;
            kmeans_labels = KMeansDense env (n_clusters self) embedding;
            labels = (if sort_clusters self then reindex_clusters kmeans_labels
                      else kmeans_labels);
            self = self\<lparr>kmeans.labels' := Some labels\<rparr>;
            self =
              (if return_membership self \<or> return_adjacency self then
                 let membership = membership_matrix env labels;
                     self = (if return_membership self
                             then self\<lparr>membership' :=
                                    Some (normalize_m env (dot env adjacency membership))\<rparr>
                             else self);
                     self = (if return_adjacency self
                             then self\<lparr>adjacency' :=
                                    Some (dot env (transposed membership)
                                            (dot env adjacency membership))\<rparr>
                             else self)
                 in self
               else self)
        in (self, None))"

text \<open>
  \<open>BiKMeans.fit\<close>. \<open>np.vstack\<close> of two arrays of rows is their concatenation.
\<close>

definition BiKMeans_fit ::
  "clustering_env \<Rightarrow> bikmeans \<Rightarrow> sparse_matrix \<Rightarrow> bikmeans \<times> error option" where
  "BiKMeans_fit env self biadjacency =
     (let (n_row, n_col) = shape biadjacency
      in if n_clusters self > int n_row then (self, Some ValueError)
      else
        let method = embedding_fit env (embedding_method self) biadjacency;
            self = self\<lparr>embedding_method := method\<rparr>;
            embedding = (if co_cluster self
                         then embedding_row' method @ embedding_col' method
                         else embedding' method);
            kmeans_labels = KMeansDense env (n_clusters self) embedding;
            labels = (if sort_clusters self then reindex_clusters kmeans_labels
                      else kmeans_labels);
            labels_row = (if co_cluster self then take n_row labels else labels);
            labels_col = (if co_cluster self then Some (drop n_row labels)
                          else labels_col' self);
            self = self\<lparr>kmeans.labels' := Some labels_row,
                        labels_row' := Some labels_row,
                        labels_col' := labels_col\<rparr>;
            self =
              (if return_membership self then
                 let membership_row = membership_matrix env labels_row;
                     self =
                       (case labels_col of
                          Some lc \<Rightarrow>
                            let membership_col = membership_matrix env lc
                            in self\<lparr>membership_row' :=
                                      Some (normalize_m env (dot env biadjacency membership_col)),
                                    membership_col' :=
                                      Some (normalize_m env
                                              (dot env (transposed biadjacency) membership_row))\<rparr>
                        | None \<Rightarrow>
                            self\<lparr>membership_row' :=
                                   Some (normalize_m env
                                           (dot env biadjacency
                                              (dot env (transposed biadjacency) membership_row)))\<rparr>)
                 in self\<lparr>membership' := membership_row' self\<rparr>
               else self);
            self =
              (if return_biadjacency self then
                 let membership_row = membership_matrix env labels_row;
                     biadjacency_c = dot env (transposed membership_row) biadjacency;
                     biadjacency_c =
                       (case labels_col of
                          Some lc \<Rightarrow> dot env biadjacency_c (membership_matrix env lc)
                        | None \<Rightarrow> biadjacency_c)
                 in self\<lparr>biadjacency' := Some biadjacency_c\<rparr>
               else self)
        in (self, None))"

section \<open>BiLouvain\<close>

text \<open>The generator returned by \<open>check_random_state\<close>, identified by its seed.\<close>

datatype random_state_t = RandomState nat

text \<open>The \<open>weights\<close> arguments of \<open>fit\<close>: a name or an array of custom weights.\<close>

datatype weight_spec = WeightsStr string | WeightsArray "real list"

text \<open>
  The Louvain driver as \<open>BiLouvain.fit\<close> uses it: it is built from the algorithm and
  the verbosity flag, and fitted on a graph with one or two weight vectors.
\<close>

record louvain_call =
  lc_algorithm :: optimizer
  lc_verbose :: bool
  lc_adjacency :: sparse_matrix
  lc_weights :: "real list"
  lc_feature_weights :: "real list option"

text \<open>The attributes that \<open>BiLouvain.fit\<close> reads from the fitted driver.\<close>

record louvain =
  labels' :: "nat list"
  n_clusters' :: nat
  iteration_count' :: nat
  aggregate_graph' :: sparse_matrix

record bilouvain =
  random_state :: random_state_t
  algorithm :: optimizer
  resolution :: real
  tol :: real
  agg_tol :: real
  max_agg_iter :: int
  engine :: string
  verbose :: bool
  labels' :: "nat list option"
  feature_labels' :: "nat list option"
  iteration_count' :: "nat option"
  aggregate_graph' :: "sparse_matrix option"
  score' :: "real option"
  n_clusters' :: "nat option"

text \<open>
  The collaborators of \<open>BiLouvain\<close>, none of them among the sources: the four checks
  of \<open>sknetwork.utils.checks\<close>, each of which returns a validated value or raises, and
  the Louvain driver of \<open>sknetwork.clustering.louvain\<close>.
\<close>

record bilouvain_env =
  check_random_state :: "pyobj \<Rightarrow> error + random_state_t"
  check_engine :: "string \<Rightarrow> error + string"
  check_format :: "sparse_matrix \<Rightarrow> error + sparse_matrix"
  check_probs :: "weight_spec \<Rightarrow> sparse_matrix \<Rightarrow> error + real list"
  Louvain_fit :: "louvain_call \<Rightarrow> error + louvain"




text \<open>
  Lines 127 to 140 of \<open>BiLouvain.fit\<close>: the driver is built, the graph over the
  \<open>n+p\<close> nodes is constructed and the weight vectors are prepared; the result is what
  the driver is fitted on. \<open>np.hstack\<close> of two vectors is their concatenation.
\<close>

definition BiLouvain_fit_call ::
  "bilouvain_env \<Rightarrow> bilouvain \<Rightarrow> sparse_matrix \<Rightarrow> weight_spec \<Rightarrow> weight_spec \<Rightarrow> bool
     \<Rightarrow> error + louvain_call" where
  "BiLouvain_fit_call env self biadjacency weights feature_weights force_undirected =
     (let (n, p) = shape biadjacency
      in if force_undirected then
        (let adjacency = bipartite2undirected biadjacency
         in case check_probs env weights biadjacency of
              Inl e \<Rightarrow> Inl e
            | Inr samp_weights \<Rightarrow>
                (case check_probs env feature_weights (transposed biadjacency) of
                   Inl e \<Rightarrow> Inl e
                 | Inr feat_weights \<Rightarrow>
                     (case check_probs env (WeightsArray (samp_weights @ feat_weights)) adjacency of
                        Inl e \<Rightarrow> Inl e
                      | Inr weights \<Rightarrow>
                          Inr \<lparr>lc_algorithm = algorithm self, lc_verbose = verbose self,
                               lc_adjacency = adjacency, lc_weights = weights,
                               lc_feature_weights = None\<rparr>)))
      else
        (let adjacency = bipartite2directed biadjacency
         in case check_probs env weights biadjacency of
              Inl e \<Rightarrow> Inl e
            | Inr row_probs \<Rightarrow>
                (let samp_weights = row_probs @ replicate p 0
                 in case check_probs env feature_weights (transposed biadjacency) of
                      Inl e \<Rightarrow> Inl e
                    | Inr col_probs \<Rightarrow>
                        (let feat_weights = replicate n 0 @ col_probs
                         in Inr \<lparr>lc_algorithm = algorithm self, lc_verbose = verbose self,
                                  lc_adjacency = adjacency, lc_weights = samp_weights,
                                  lc_feature_weights = Some feat_weights\<rparr>))))"

text \<open>
  \<open>BiLouvain.fit\<close>. The slices \<open>labels[:n]\<close> and \<open>labels[n:]\<close> are \<open>take n\<close> and
  \<open>drop n\<close>. No attribute is assigned before the last collaborator has returned, so an
  exception leaves the object as it was.
\<close>

definition BiLouvain_fit ::
  "bilouvain_env \<Rightarrow> bilouvain \<Rightarrow> sparse_matrix \<Rightarrow> weight_spec \<Rightarrow> weight_spec \<Rightarrow> bool \<Rightarrow> bool
     \<Rightarrow> error + bilouvain" where
  "BiLouvain_fit env self biadjacency weights feature_weights force_undirected sorted_cluster =
     (case check_format env biadjacency of
        Inl e \<Rightarrow> Inl e
      | Inr biadjacency \<Rightarrow>
          (let (n, p) = shape biadjacency
           in case BiLouvain_fit_call env self biadjacency weights feature_weights
                     force_undirected of
                Inl e \<Rightarrow> Inl e
              | Inr call \<Rightarrow>
                  (case Louvain_fit env call of
                     Inl e \<Rightarrow> Inl e
                   | Inr louvain \<Rightarrow>
                       (let labels = louvain.labels' louvain;
                            labels = (if sorted_cluster then reindex_clusters labels else labels)
                        in Inr (self\<lparr>n_clusters' := Some (louvain.n_clusters' louvain),
                                     iteration_count' := Some (louvain.iteration_count' louvain),
                                     bilouvain.labels' := Some (take n labels),
                                     feature_labels' := Some (drop n labels),
                                     aggregate_graph' :=
                                       Some (scale_matrix (louvain.aggregate_graph' louvain)
                                               (total_weight (lc_adjacency call)))\<rparr>)))))"

text \<open>
  Modelled from the spec: the Louvain driver of \<open>sknetwork.clustering.louvain\<close> is not
  among the sources. Sections 3 and 4.3: the labeling it returns is defined for every
  node of the graph it was fitted on, and \<open>n_clusters_\<close> records the number of distinct
  labels.
\<close>

definition louvain_result_ok :: "nat \<Rightarrow> louvain \<Rightarrow> bool" where
  "louvain_result_ok n_nodes lv =
     (length (louvain.labels' lv) = n_nodes \<and>
      louvain.n_clusters' lv = card (set (louvain.labels' lv)))"

section \<open>Example inputs\<close>

text \<open>
  Concrete inputs at which the theorems below are instantiated. The collaborators of
  the example environments are simple stand-ins of the right type.
\<close>

definition ex_graph :: sparse_matrix where
  "ex_graph = \<lparr>shape = (3, 3), entries = [(0, 1, 1), (1, 0, 1), (1, 2, 2), (2, 2, 5)]\<rparr>"

definition ex_biadjacency :: sparse_matrix where
  "ex_biadjacency = \<lparr>shape = (3, 2), entries = [(0, 0, 1), (1, 1, 1), (2, 1, 1)]\<rparr>"

text \<open>
  The two checks of the constructor in the example environment: a seed is \<open>None\<close> or
  a non-negative integer, a negative integer being rejected with a \<open>ValueError\<close> and
  any other value with a \<open>TypeError\<close>; an engine is one of the three known names, any
  other name being rejected with a \<open>ValueError\<close>.
\<close>

definition ex_check_random_state :: "pyobj \<Rightarrow> error + random_state_t" where
  "ex_check_random_state v =
     (case v of
        PyNone \<Rightarrow> Inr (RandomState 0)
      | PyInt i \<Rightarrow> (if i < 0 then Inl ValueError else Inr (RandomState (nat i)))
      | _ \<Rightarrow> Inl TypeError)"

definition ex_check_engine :: "string \<Rightarrow> error + string" where
  "ex_check_engine s =
     (if s = ''default'' then Inr ''python''
      else if s = ''python'' \<or> s = ''numba'' then Inr s
      else Inl ValueError)"

definition ex_check_probs :: "weight_spec \<Rightarrow> sparse_matrix \<Rightarrow> error + real list" where
  "ex_check_probs spec m =
     (case spec of
        WeightsArray w \<Rightarrow> (if length w = fst (shape m) then Inr w else Inl ValueError)
      | WeightsStr s \<Rightarrow>
          (if s = ''uniform''
           then Inr (replicate (fst (shape m)) (1 / real (fst (shape m))))
           else Inl ValueError))"

text \<open>
  A driver result for \<open>ex_biadjacency\<close>: row 0 and column 0 form the first cluster,
  rows 1 and 2 and column 1 the second, numbered in order of first appearance.
\<close>

definition ex_louvain :: louvain where
  "ex_louvain =
     \<lparr>louvain.labels' = [0, 1, 1, 0, 1], louvain.n_clusters' = 2,
      louvain.iteration_count' = 1,
      louvain.aggregate_graph' = \<lparr>shape = (2, 2), entries = [(0, 0, 1 / 3), (1, 1, 2 / 3)]\<rparr>\<rparr>"

definition ex_env :: bilouvain_env where
  "ex_env =
     \<lparr>check_random_state = ex_check_random_state, check_engine = ex_check_engine,
      check_format = Inr, check_probs = ex_check_probs,
      Louvain_fit = (\<lambda>call. Inr ex_louvain)\<rparr>"

definition ex_self :: bilouvain where
  "ex_self =
     \<lparr>random_state = RandomState 0, algorithm = GreedyModularity 1 (1 / 1000) ''python'',
      resolution = 1, tol = 1 / 1000, agg_tol = 1 / 1000, max_agg_iter = - 1,
      engine = ''python'', verbose = False, labels' = None, feature_labels' = None,
      iteration_count' = None, aggregate_graph' = None, score' = None, n_clusters' = None\<rparr>"

definition ex_call :: louvain_call where
  "ex_call =
     \<lparr>lc_algorithm = GreedyModularity 1 (1 / 1000) ''python'', lc_verbose = False,
      lc_adjacency = bipartite2directed ex_biadjacency,
      lc_weights = [1 / 3, 1 / 3, 1 / 3, 0, 0],
      lc_feature_weights = Some [0, 0, 0, 1 / 2, 1 / 2]\<rparr>"

text \<open>The object after \<open>fit\<close> on the example run, with \<open>sorted_cluster = True\<close>.\<close>

definition ex_fitted :: bilouvain where
  "ex_fitted =
     ex_self\<lparr>n_clusters' := Some 2, iteration_count' := Some 1,
             bilouvain.labels' := Some [1, 0, 0], feature_labels' := Some [1, 0],
             aggregate_graph' := Some \<lparr>shape = (2, 2), entries = [(0, 0, 1), (1, 1, 2)]\<rparr>\<rparr>"

definition ex_embedding :: base_embedding where
  "ex_embedding = \<lparr>embedding' = [], embedding_row' = [], embedding_col' = []\<rparr>"

definition ex_clustering_env :: clustering_env where
  "ex_clustering_env =
     \<lparr>fit_transform = (\<lambda>m a. (m, embedding' m)), embedding_fit = (\<lambda>m a. m),
      KMeansDense = (\<lambda>k x. replicate (length x) 0),
      membership_matrix = (\<lambda>ls. \<lparr>shape = (length ls, 1), entries = []\<rparr>),
      normalize_m = (\<lambda>m. m), dot = (\<lambda>a b. a)\<rparr>"

definition ex_kmeans :: kmeans where
  "ex_kmeans =
     \<lparr>n_clusters = 8, embedding_method = ex_embedding, sort_clusters = True,
      return_membership = True, return_adjacency = True, kmeans.labels' = None,
      membership' = None, adjacency' = None\<rparr>"

definition ex_bikmeans :: bikmeans where
  "ex_bikmeans =
     \<lparr>n_clusters = 4, embedding_method = ex_embedding, sort_clusters = True,
      return_membership = True, return_adjacency = False, kmeans.labels' = None,
      membership' = None, adjacency' = None, co_cluster = True,
      return_biadjacency = True, labels_row' = None, labels_col' = None,
      membership_row' = None, membership_col' = None, biadjacency' = None\<rparr>"

section \<open>Lemmas\<close>

subsection \<open>Cluster Reindexer: order and renaming\<close>

lemma set_first_seen [simp]: "set (first_seen xs) = set xs"
  by (induction xs) auto

lemma distinct_first_seen [simp]: "distinct (first_seen xs)"
  by (induction xs) auto

lemma first_seen_map:
  "inj_on f (set xs) \<Longrightarrow> first_seen (map f xs) = map f (first_seen xs)"
proof (induction xs)
  case Nil
  then show ?case by simp
next
  case (Cons x xs)
  have inj: "inj_on f (set xs)" using Cons.prems by simp
  have "\<And>y. y \<in> set (first_seen xs) \<Longrightarrow> (f y \<noteq> f x) = (y \<noteq> x)"
    using Cons.prems by (auto simp: inj_on_def)
  then have "filter (\<lambda>y. f y \<noteq> f x) (first_seen xs) = filter (\<lambda>y. y \<noteq> x) (first_seen xs)"
    by (intro filter_cong) simp_all
  then have "filter (\<lambda>y. y \<noteq> f x) (map f (first_seen xs)) = map f (filter (\<lambda>y. y \<noteq> x) (first_seen xs))"
    by (simp add: filter_map comp_def)
  then show ?case using Cons.IH[OF inj] by simp
qed

lemma index_of_less: "y \<in> set xs \<Longrightarrow> index_of xs y < length xs"
  by (induction xs) auto

lemma nth_index_of [simp]: "y \<in> set xs \<Longrightarrow> xs ! index_of xs y = y"
  by (induction xs) auto

lemma index_of_nth [simp]: "distinct xs \<Longrightarrow> i < length xs \<Longrightarrow> index_of xs (xs ! i) = i"
proof (induction xs arbitrary: i)
  case Nil
  then show ?case by simp
next
  case (Cons x xs)
  then show ?case by (cases i) auto
qed

lemma inj_on_index_of: "inj_on (index_of xs) (set xs)"
  by (rule inj_on_inverseI[where g="\<lambda>i. xs ! i"]) simp

lemma index_of_map:
  "inj_on f (insert y (set xs)) \<Longrightarrow> index_of (map f xs) (f y) = index_of xs y"
  by (induction xs) (auto simp: inj_on_def)

lemma index_of_image: "distinct xs \<Longrightarrow> index_of xs ` set xs = {0..<length xs}"
proof (intro equalityI subsetI)
  fix i assume "i \<in> index_of xs ` set xs"
  then show "i \<in> {0..<length xs}" by (auto simp: index_of_less)
next
  fix i assume d: "distinct xs" and "i \<in> {0..<length xs}"
  then have "i < length xs" by simp
  then have "index_of xs (xs ! i) = i" "xs ! i \<in> set xs" using d by simp_all
  then show "i \<in> index_of xs ` set xs" by (intro image_eqI[where x="xs ! i"]) simp_all
qed

lemma insort_key_map:
  "insort_key g (f x) (map f ys) = map f (insort_key (\<lambda>y. g (f y)) x ys)"
  by (induction ys) simp_all

lemma sort_key_map: "sort_key g (map f xs) = map f (sort_key (\<lambda>y. g (f y)) xs)"
  by (induction xs) (simp_all add: insort_key_map)

lemma insort_key_cong_set:
  assumes "f x = g x" and "\<forall>y\<in>set ys. f y = g y"
  shows "insort_key f x ys = insort_key g x ys"
  using assms by (induction ys) simp_all

lemma sort_key_cong_set:
  assumes "\<forall>x\<in>set xs. f x = g x"
  shows "sort_key f xs = sort_key g xs"
  using assms
proof (induction xs)
  case Nil
  then show ?case by simp
next
  case (Cons x xs)
  have eq: "sort_key f xs = sort_key g xs" using Cons by simp
  have "insort_key f x (sort_key g xs) = insort_key g x (sort_key g xs)"
    using Cons.prems by (intro insort_key_cong_set) simp_all
  then show ?case using eq by simp
qed

lemma count_list_map_inj:
  assumes "inj_on f (insert l (set xs))"
  shows "count_list (map f xs) (f l) = count_list xs l"
  using assms
proof (induction xs)
  case Nil
  then show ?case by simp
next
  case (Cons x xs)
  have "inj_on f (insert l (set xs))"
    using Cons.prems by (rule inj_on_subset) auto
  then have ih: "count_list (map f xs) (f l) = count_list xs l" by (rule Cons.IH)
  have "(f x = f l) = (x = l)"
    using Cons.prems by (intro inj_on_eq_iff[where A="insert l (set (x # xs))"]) simp_all
  then show ?case using ih by simp
qed

lemma set_sorted_clusters [simp]: "set (sorted_clusters xs) = set xs"
  by (simp add: sorted_clusters_def)

lemma distinct_sorted_clusters [simp]: "distinct (sorted_clusters xs)"
  by (simp add: sorted_clusters_def)

lemma length_sorted_clusters: "length (sorted_clusters xs) = card (set xs)"
  using distinct_card[of "sorted_clusters xs"] by simp

lemma sorted_clusters_map:
  assumes "inj_on f (set xs)"
  shows "sorted_clusters (map f xs) = map f (sorted_clusters xs)"
proof -
  have "\<forall>l \<in> set (first_seen xs).
      - int (cluster_size (map f xs) (f l)) = - int (cluster_size xs l)"
    using assms by (simp add: cluster_size_def count_list_map_inj insert_absorb)
  then have "sort_key (\<lambda>l. - int (cluster_size (map f xs) (f l))) (first_seen xs)
      = sort_key (\<lambda>l. - int (cluster_size xs l)) (first_seen xs)"
    by (rule sort_key_cong_set)
  then show ?thesis
    by (simp add: sorted_clusters_def first_seen_map[OF assms] sort_key_map)
qed

lemma reindex_clusters_map:
  assumes "inj_on f (set xs)"
  shows "reindex_clusters (map f xs) = reindex_clusters xs"
proof -
  have "\<And>l. l \<in> set xs \<Longrightarrow> index_of (map f (sorted_clusters xs)) (f l) = index_of (sorted_clusters xs) l"
    using assms by (simp add: index_of_map insert_absorb)
  then show ?thesis
    by (simp add: reindex_clusters_def sorted_clusters_map[OF assms])
qed

lemma reindex_clusters_idem: "reindex_clusters (reindex_clusters xs) = reindex_clusters xs"
proof -
  have "inj_on (index_of (sorted_clusters xs)) (set xs)"
    using inj_on_index_of[of "sorted_clusters xs"] by simp
  then have "reindex_clusters (map (index_of (sorted_clusters xs)) xs) = reindex_clusters xs"
    by (rule reindex_clusters_map)
  then show ?thesis by (simp add: reindex_clusters_def)
qed

lemma set_reindex_clusters: "set (reindex_clusters xs) = {0..<card (set xs)}"
proof -
  have "set (reindex_clusters xs) = index_of (sorted_clusters xs) ` set (sorted_clusters xs)"
    by (simp add: reindex_clusters_def)
  also have "\<dots> = {0..<length (sorted_clusters xs)}"
    by (rule index_of_image) simp
  finally show ?thesis by (simp add: length_sorted_clusters)
qed


lemma reindex_clusters_nth:
  "i < length xs \<Longrightarrow> sorted_clusters xs ! (reindex_clusters xs ! i) = xs ! i"
  by (simp add: reindex_clusters_def)

lemma reindex_clusters_same_partition:
  assumes "i < length xs" and "j < length xs"
  shows "(reindex_clusters xs ! i = reindex_clusters xs ! j) = (xs ! i = xs ! j)"
proof -
  have "inj_on (index_of (sorted_clusters xs)) (set xs)"
    using inj_on_index_of[of "sorted_clusters xs"] by simp
  moreover have "xs ! i \<in> set xs" "xs ! j \<in> set xs" using assms by simp_all
  ultimately have "(index_of (sorted_clusters xs) (xs ! i) = index_of (sorted_clusters xs) (xs ! j))
      = (xs ! i = xs ! j)"
    by (rule inj_on_eq_iff)
  then show ?thesis using assms by (simp add: reindex_clusters_def)
qed

lemma cluster_size_reindex:
  assumes "c < card (set xs)"
  shows "cluster_size (reindex_clusters xs) c = cluster_size xs (sorted_clusters xs ! c)"
proof -
  let ?S = "sorted_clusters xs"
  have c: "c < length ?S" using assms by (simp add: length_sorted_clusters)
  then have mem: "?S ! c \<in> set xs" using nth_mem[of c ?S] by simp
  have "inj_on (index_of ?S) (set xs)"
    using inj_on_index_of[of ?S] by simp
  then have "inj_on (index_of ?S) (insert (?S ! c) (set xs))"
    using mem by (simp add: insert_absorb)
  then have "count_list (map (index_of ?S) xs) (index_of ?S (?S ! c)) = count_list xs (?S ! c)"
    by (rule count_list_map_inj)
  then show ?thesis using c by (simp add: reindex_clusters_def cluster_size_def)
qed

lemma cluster_size_sorted_clusters:
  assumes "a \<le> b" and "b < card (set xs)"
  shows "cluster_size xs (sorted_clusters xs ! b) \<le> cluster_size xs (sorted_clusters xs ! a)"
proof -
  let ?K = "\<lambda>l. - int (cluster_size xs l)"
  have srt: "sorted (map ?K (sorted_clusters xs))"
    unfolding sorted_clusters_def by (rule sorted_sort_key)
  have "b < length (map ?K (sorted_clusters xs))"
    using assms by (simp add: length_sorted_clusters)
  with srt assms(1) have "map ?K (sorted_clusters xs) ! a \<le> map ?K (sorted_clusters xs) ! b"
    by (rule sorted_nth_mono)
  then show ?thesis using assms by (simp add: length_sorted_clusters)
qed

lemma reindex_clusters_descending:
  assumes "a \<le> b" and "b < card (set xs)"
  shows "cluster_size (reindex_clusters xs) b \<le> cluster_size (reindex_clusters xs) a"
  using assms cluster_size_sorted_clusters[OF assms]
  by (simp add: cluster_size_reindex)

lemma index_of_filter_less:
  assumes "P u" and "P v"
  shows "(index_of (filter P xs) u < index_of (filter P xs) v) = (index_of xs u < index_of xs v)"
  using assms by (induction xs) auto

lemma index_of_first_seen_less:
  "(index_of (first_seen xs) u < index_of (first_seen xs) v) = (index_of xs u < index_of xs v)"
proof (induction xs)
  case Nil
  then show ?case by simp
next
  case (Cons x xs)
  show ?case
  proof (cases "x = u \<or> x = v")
    case True
    then show ?thesis by auto
  next
    case False
    then have "u \<noteq> x" "v \<noteq> x" by auto
    then have "(index_of (filter (\<lambda>y. y \<noteq> x) (first_seen xs)) u
                < index_of (filter (\<lambda>y. y \<noteq> x) (first_seen xs)) v)
             = (index_of (first_seen xs) u < index_of (first_seen xs) v)"
      by (intro index_of_filter_less)
    then show ?thesis using False Cons.IH by simp
  qed
qed

lemma sorted_clusters_ties:
  assumes "a < b" and "b < card (set xs)"
    and "cluster_size xs (sorted_clusters xs ! a) = cluster_size xs (sorted_clusters xs ! b)"
  shows "index_of xs (sorted_clusters xs ! a) < index_of xs (sorted_clusters xs ! b)"
proof -
  let ?S = "sorted_clusters xs"
  let ?K = "\<lambda>l. - int (cluster_size xs l)"
  let ?P = "\<lambda>l. ?K l = ?K (?S ! a)"
  have len: "a < length ?S" "b < length ?S" using assms by (simp_all add: length_sorted_clusters)
  have P: "?P (?S ! a)" "?P (?S ! b)" using assms(3) by simp_all
  have "index_of ?S (?S ! a) < index_of ?S (?S ! b)" using len assms(1) by simp
  then have "index_of (filter ?P ?S) (?S ! a) < index_of (filter ?P ?S) (?S ! b)"
    using index_of_filter_less[of ?P "?S ! a" "?S ! b" ?S] P by simp
  moreover have "filter ?P ?S = filter ?P (first_seen xs)"
    unfolding sorted_clusters_def by (rule sort_key_stable)
  ultimately have "index_of (filter ?P (first_seen xs)) (?S ! a)
      < index_of (filter ?P (first_seen xs)) (?S ! b)" by simp
  then have "index_of (first_seen xs) (?S ! a) < index_of (first_seen xs) (?S ! b)"
    using index_of_filter_less[of ?P "?S ! a" "?S ! b" "first_seen xs"] P by simp
  then show ?thesis by (simp add: index_of_first_seen_less)
qed

lemma index_of_reindex:
  assumes "c < card (set xs)"
  shows "index_of (reindex_clusters xs) c = index_of xs (sorted_clusters xs ! c)"
proof -
  let ?S = "sorted_clusters xs"
  have c: "c < length ?S" using assms by (simp add: length_sorted_clusters)
  then have mem: "?S ! c \<in> set xs" using nth_mem[of c ?S] by simp
  have "inj_on (index_of ?S) (set xs)"
    using inj_on_index_of[of ?S] by simp
  then have "inj_on (index_of ?S) (insert (?S ! c) (set xs))"
    using mem by (simp add: insert_absorb)
  then have "index_of (map (index_of ?S) xs) (index_of ?S (?S ! c)) = index_of xs (?S ! c)"
    by (rule index_of_map)
  then show ?thesis using c by (simp add: reindex_clusters_def)
qed

lemma reindex_clusters_ties:
  assumes "a < b" and "b < card (set xs)"
    and "cluster_size (reindex_clusters xs) a = cluster_size (reindex_clusters xs) b"
  shows "index_of (reindex_clusters xs) a < index_of (reindex_clusters xs) b"
proof -
  have a: "a < card (set xs)" using assms by simp
  have "cluster_size xs (sorted_clusters xs ! a) = cluster_size xs (sorted_clusters xs ! b)"
    using assms(3) by (simp add: cluster_size_reindex a assms(2))
  then have "index_of xs (sorted_clusters xs ! a) < index_of xs (sorted_clusters xs ! b)"
    using assms(1,2) by (intro sorted_clusters_ties)
  then show ?thesis by (simp add: index_of_reindex a assms(2))
qed


subsection \<open>Aggregation Engine: regrouping a sum by cluster\<close>

lemma sum_list_delta:
  fixes v :: real
  assumes "c < k"
  shows "sum_list (map (\<lambda>d. if c = d then v else 0) [0..<k]) = v"
proof -
  have "sum_list (map (\<lambda>d. if c = d then v else 0) [0..<k])
      = (\<Sum>d\<in>set [0..<k]. if c = d then v else 0)"
    by (rule sum_list_distinct_conv_sum_set) simp
  also have "\<dots> = v" using assms by (simp add: sum.delta)
  finally show ?thesis .
qed

lemma sum_list_by_key:
  fixes f :: "'a \<Rightarrow> real"
  assumes "\<forall>x\<in>set xs. key x < k"
  shows "sum_list (map (\<lambda>c. sum_list (map f (filter (\<lambda>x. key x = c) xs))) [0..<k])
       = sum_list (map f xs)"
  using assms
proof (induction xs)
  case Nil
  then show ?case by simp
next
  case (Cons x xs)
  have ih: "sum_list (map (\<lambda>c. sum_list (map f (filter (\<lambda>x. key x = c) xs))) [0..<k])
       = sum_list (map f xs)" using Cons by simp
  have kx: "key x < k" using Cons.prems by simp
  have "sum_list (map (\<lambda>c. sum_list (map f (filter (\<lambda>y. key y = c) (x # xs)))) [0..<k])
      = sum_list (map (\<lambda>c. (if key x = c then f x else 0)
                          + sum_list (map f (filter (\<lambda>y. key y = c) xs))) [0..<k])"
    by (intro arg_cong[where f=sum_list] map_cong) simp_all
  also have "\<dots> = sum_list (map (\<lambda>c. if key x = c then f x else 0) [0..<k])
                 + sum_list (map (\<lambda>c. sum_list (map f (filter (\<lambda>y. key y = c) xs))) [0..<k])"
    by (rule sum_list_addf)
  also have "\<dots> = f x + sum_list (map f xs)"
    using ih sum_list_delta[OF kx] by simp
  finally show ?case by simp
qed

lemma sum_list_concat_real:
  fixes xss :: "real list list"
  shows "sum_list (concat xss) = sum_list (map sum_list xss)"
  by (induction xss) simp_all

lemma data_coarse_entry:
  "sum_list (map (\<lambda>(a, b, w). w) (coarse_entry es c1 c2))
     = sum_list (map (\<lambda>(a, b, w). w) (block es c1 c2))"
  by (simp add: coarse_entry_def)

lemma block_filter:
  "block es c1 c2 = filter (\<lambda>e. fst (snd e) = c2) (filter (\<lambda>e. fst e = c1) es)"
  by (auto simp: block_def intro!: filter_cong)

lemma sum_coarse_entries:
  assumes "\<forall>e\<in>set es. fst e < k \<and> fst (snd e) < k"
  shows "sum_list (map (\<lambda>(a, b, w). w)
           (concat (map (\<lambda>c1. concat (map (\<lambda>c2. coarse_entry es c1 c2) [0..<k])) [0..<k])))
       = sum_list (map (\<lambda>(a, b, w). w) es)"
proof -
  let ?w = "\<lambda>(a, b, w). w :: real"
  have row: "sum_list (map ?w (concat (map (\<lambda>c2. coarse_entry es c1 c2) [0..<k])))
      = sum_list (map ?w (filter (\<lambda>e. fst e = c1) es))" for c1
  proof -
    have "sum_list (map ?w (concat (map (\<lambda>c2. coarse_entry es c1 c2) [0..<k])))
        = sum_list (map (\<lambda>c2. sum_list (map ?w (coarse_entry es c1 c2))) [0..<k])"
      by (simp add: map_concat sum_list_concat_real comp_def)
    also have "\<dots> = sum_list (map (\<lambda>c2. sum_list (map ?w
           (filter (\<lambda>e. fst (snd e) = c2) (filter (\<lambda>e. fst e = c1) es)))) [0..<k])"
      by (simp add: data_coarse_entry block_filter)
    also have "\<dots> = sum_list (map ?w (filter (\<lambda>e. fst e = c1) es))"
      using assms by (intro sum_list_by_key) simp
    finally show ?thesis .
  qed
  have "sum_list (map ?w
           (concat (map (\<lambda>c1. concat (map (\<lambda>c2. coarse_entry es c1 c2) [0..<k])) [0..<k])))
      = sum_list (map (\<lambda>c1. sum_list (map ?w
           (concat (map (\<lambda>c2. coarse_entry es c1 c2) [0..<k])))) [0..<k])"
    by (simp add: map_concat sum_list_concat_real comp_def)
  also have "\<dots> = sum_list (map (\<lambda>c1. sum_list (map ?w (filter (\<lambda>e. fst e = c1) es))) [0..<k])"
    by (simp add: row)
  also have "\<dots> = sum_list (map ?w es)"
    using assms by (intro sum_list_by_key) simp
  finally show ?thesis .
qed

lemma dense_ids_less:
  assumes "i < length labels"
  shows "dense_ids labels ! i < length (first_seen labels)"
  using assms by (simp add: dense_ids_def index_of_less)

subsection \<open>BiLouvain.fit, step by step\<close>

text \<open>
  A call of \<open>fit\<close> succeeds exactly when the format check, the preparation of the
  driver's arguments and the driver succeed, one after the other; the object it returns
  is then determined by the driver's result.
\<close>

lemma BiLouvain_fit_call_adjacency:
  assumes "BiLouvain_fit_call env self B weights feature_weights force_undirected = Inr call"
  shows "lc_adjacency call
       = (if force_undirected then bipartite2undirected B else bipartite2directed B)"
  using assms
  by (auto simp: BiLouvain_fit_call_def Let_def split: prod.splits if_splits sum.splits)

lemma BiLouvain_fit_Inr:
  assumes "check_format env biadjacency = Inr B"
    and "shape B = (n, p)"
    and "BiLouvain_fit_call env self B weights feature_weights force_undirected = Inr call"
    and "Louvain_fit env call = Inr lv"
  shows "BiLouvain_fit env self biadjacency weights feature_weights force_undirected sorted_cluster
       = Inr (self\<lparr>n_clusters' := Some (louvain.n_clusters' lv),
                   iteration_count' := Some (louvain.iteration_count' lv),
                   bilouvain.labels' :=
                     Some (take n (if sorted_cluster then reindex_clusters (louvain.labels' lv)
                                   else louvain.labels' lv)),
                   feature_labels' :=
                     Some (drop n (if sorted_cluster then reindex_clusters (louvain.labels' lv)
                                   else louvain.labels' lv)),
                   aggregate_graph' :=
                     Some (scale_matrix (louvain.aggregate_graph' lv)
                             (total_weight (lc_adjacency call)))\<rparr>)"
  using assms by (simp add: BiLouvain_fit_def Let_def)

lemma BiLouvain_fit_Inr_cases:
  assumes "BiLouvain_fit env self biadjacency weights feature_weights force_undirected
             sorted_cluster = Inr self'"
  shows "\<exists>B n p call lv.
           check_format env biadjacency = Inr B \<and> shape B = (n, p) \<and>
           BiLouvain_fit_call env self B weights feature_weights force_undirected = Inr call \<and>
           Louvain_fit env call = Inr lv"
  using assms
  by (auto simp: BiLouvain_fit_def Let_def split: sum.splits prod.splits)

lemma length_reindex_clusters: "length (reindex_clusters labels) = length labels"
  by (simp add: reindex_clusters_def)

subsection \<open>The example run\<close>

text \<open>
  \<open>fit\<close> on the 3-by-2 example with uniform weights, \<open>force_undirected = False\<close> and
  \<open>sorted_cluster = True\<close>.
\<close>

lemma ex_check_format: "check_format ex_env ex_biadjacency = Inr ex_biadjacency"
  by (simp add: ex_env_def)

lemma ex_shape: "shape ex_biadjacency = (3, 2)"
  by (simp add: ex_biadjacency_def)

lemma ex_check_probs_rows:
  "check_probs ex_env (WeightsStr ''uniform'') ex_biadjacency = Inr [1 / 3, 1 / 3, 1 / 3]"
  by (simp add: ex_env_def ex_check_probs_def ex_biadjacency_def numeral_3_eq_3)

lemma ex_check_probs_cols:
  "check_probs ex_env (WeightsStr ''uniform'') (transposed ex_biadjacency) = Inr [1 / 2, 1 / 2]"
  by (simp add: ex_env_def ex_check_probs_def ex_biadjacency_def transposed_def numeral_2_eq_2)

lemma ex_fit_call:
  "BiLouvain_fit_call ex_env ex_self ex_biadjacency (WeightsStr ''uniform'')
     (WeightsStr ''uniform'') False = Inr ex_call"
  by (simp add: BiLouvain_fit_call_def ex_shape ex_check_probs_rows ex_check_probs_cols
      ex_call_def ex_self_def numeral_3_eq_3 numeral_2_eq_2)

lemma ex_Louvain_fit: "Louvain_fit ex_env ex_call = Inr ex_louvain"
  by (simp add: ex_env_def)

lemma ex_total_weight: "total_weight (lc_adjacency ex_call) = 3"
  by (simp add: ex_call_def bipartite2directed_def ex_biadjacency_def total_weight_def data_def)

lemma ex_reindex: "reindex_clusters (louvain.labels' ex_louvain) = [1, 0, 0, 1, 0]"
  by (simp add: ex_louvain_def reindex_clusters_def sorted_clusters_def cluster_size_def)

lemma ex_fit:
  "BiLouvain_fit ex_env ex_self ex_biadjacency (WeightsStr ''uniform'') (WeightsStr ''uniform'')
     False True = Inr ex_fitted"
  by (simp add: BiLouvain_fit_Inr[OF ex_check_format ex_shape ex_fit_call ex_Louvain_fit]
      ex_total_weight ex_fitted_def ex_reindex)
    (simp add: ex_louvain_def scale_matrix_def numeral_3_eq_3)

subsection \<open>The constructor of BiLouvain\<close>








section \<open>Claims\<close>

text \<open>
  C1. Weight conservation of the Aggregation Engine: for every weighted graph with
  non-negative entries and every labeling of its nodes, the coarse graph returned by
  \<open>aggregate\<close> has exactly the total edge weight of the input graph.
\<close>

theorem aggregate_total_weight:
  assumes "weighted_graph graph" and "length labels = fst (shape graph)"
  shows "total_weight (fst (aggregate graph row_weights col_weights labels)) = total_weight graph"
proof -
  let ?ids = "dense_ids labels"
  let ?k = "length (first_seen labels)"
  let ?es = "map (\<lambda>(i, j, w). (?ids ! i, ?ids ! j, w)) (entries graph)"
  have rng: "\<forall>e\<in>set (entries graph). fst e < length labels \<and> fst (snd e) < length labels"
    using assms by (auto simp: weighted_graph_def list_all_iff)
  have "\<forall>e\<in>set ?es. fst e < ?k \<and> fst (snd e) < ?k"
    using rng by (auto simp: dense_ids_less)
  then have "sum_list (map (\<lambda>(a, b, w). w)
           (concat (map (\<lambda>c1. concat (map (\<lambda>c2. coarse_entry ?es c1 c2) [0..<?k])) [0..<?k])))
       = sum_list (map (\<lambda>(a, b, w). w) ?es)"
    by (rule sum_coarse_entries)
  also have "\<dots> = sum_list (map (\<lambda>(a, b, w). w) (entries graph))"
    by (simp add: comp_def case_prod_unfold)
  finally show ?thesis
    by (simp add: aggregate_def aggregate_graph_def total_weight_def data_def Let_def)
qed

theorem aggregate_total_weight_witness:
  "weighted_graph ex_graph \<and> length [7, 3, 7 :: nat] = fst (shape ex_graph) \<and>
   total_weight (fst (aggregate ex_graph [1 / 4, 1 / 2, 1 / 4] [1 / 2, 1 / 4, 1 / 4] [7, 3, 7])) = 9"
proof -
  have g: "weighted_graph ex_graph"
    by (simp add: weighted_graph_def ex_graph_def)
  have l: "length [7, 3, 7 :: nat] = fst (shape ex_graph)"
    by (simp add: ex_graph_def)
  have "total_weight ex_graph = 9"
    by (simp add: total_weight_def data_def ex_graph_def)
  then show ?thesis
    using g l aggregate_total_weight[OF g l, of "[1 / 4, 1 / 2, 1 / 4]" "[1 / 2, 1 / 4, 1 / 4]"]
    by simp
qed

text \<open>
  C2. Bipartite split consistency. As stated, the concatenation of \<open>labels_\<close> and
  \<open>feature_labels_\<close> reproduces the raw label vector of the Louvain driver. On the
  example run with \<open>sorted_cluster = True\<close> the driver returns \<open>[0, 1, 1, 0, 1]\<close> and
  the concatenation is \<open>[1, 0, 0, 1, 0]\<close>.
\<close>

theorem BiLouvain_fit_split_counterexample:
  "BiLouvain_fit ex_env ex_self ex_biadjacency (WeightsStr ''uniform'') (WeightsStr ''uniform'')
     False True = Inr ex_fitted \<and>
   Louvain_fit ex_env ex_call = Inr ex_louvain \<and>
   bilouvain.labels' ex_fitted = Some [1, 0, 0] \<and>
   feature_labels' ex_fitted = Some [1, 0] \<and>
   louvain.labels' ex_louvain = [0, 1, 1, 0, 1] \<and>
   [1, 0, 0] @ [1, 0] \<noteq> louvain.labels' ex_louvain"
  using ex_fit ex_Louvain_fit by (simp add: ex_fitted_def ex_louvain_def)

text \<open>
  C2, amended. For every biadjacency matrix with \<open>n\<close> rows and \<open>p\<close> columns on which
  the driver labels all \<open>n+p\<close> nodes, after \<open>BiLouvain.fit\<close> the row labeling has
  length \<open>n\<close>, the column labeling has length \<open>p\<close>, and their concatenation is the
  label vector that was split: the driver's label vector when \<open>sorted_cluster\<close> is
  False, and the reindexed driver's label vector when \<open>sorted_cluster\<close> is True.
\<close>

theorem BiLouvain_fit_split:
  assumes "check_format env biadjacency = Inr B"
    and "shape B = (n, p)"
    and "BiLouvain_fit_call env self B weights feature_weights force_undirected = Inr call"
    and "Louvain_fit env call = Inr lv"
    and "length (louvain.labels' lv) = n + p"
  shows "\<exists>self' rows cols.
           BiLouvain_fit env self biadjacency weights feature_weights force_undirected
             sorted_cluster = Inr self' \<and>
           bilouvain.labels' self' = Some rows \<and> feature_labels' self' = Some cols \<and>
           length rows = n \<and> length cols = p \<and>
           rows @ cols = (if sorted_cluster then reindex_clusters (louvain.labels' lv)
                          else louvain.labels' lv)"
  using assms(5)
  by (simp add: BiLouvain_fit_Inr[OF assms(1-4)] length_reindex_clusters)

theorem BiLouvain_fit_split_witness:
  "\<exists>self' rows cols.
     BiLouvain_fit ex_env ex_self ex_biadjacency (WeightsStr ''uniform'') (WeightsStr ''uniform'')
       False True = Inr self' \<and>
     bilouvain.labels' self' = Some rows \<and> feature_labels' self' = Some cols \<and>
     length rows = 3 \<and> length cols = 2 \<and>
     rows @ cols = (if True then reindex_clusters (louvain.labels' ex_louvain)
                    else louvain.labels' ex_louvain)"
proof -
  have len: "length (louvain.labels' ex_louvain) = 3 + 2"
    by (simp add: ex_louvain_def)
  show ?thesis
    by (rule BiLouvain_fit_split[OF ex_check_format ex_shape ex_fit_call ex_Louvain_fit len])
qed

text \<open>
  C3. After \<open>BiLouvain.fit\<close> the exposed \<open>aggregate_graph_\<close> is the driver's aggregate
  graph with every stored value multiplied by the total edge weight of the graph
  constructed over the \<open>n+p\<close> nodes: the undirected symmetrization when
  \<open>force_undirected\<close> is True, the directed construction otherwise.
\<close>

theorem BiLouvain_fit_aggregate_graph:
  assumes "check_format env biadjacency = Inr B"
    and "shape B = (n, p)"
    and "BiLouvain_fit_call env self B weights feature_weights force_undirected = Inr call"
    and "Louvain_fit env call = Inr lv"
    and "W = total_weight (if force_undirected then bipartite2undirected B
                           else bipartite2directed B)"
  shows "\<exists>self' agg.
           BiLouvain_fit env self biadjacency weights feature_weights force_undirected
             sorted_cluster = Inr self' \<and>
           bilouvain.aggregate_graph' self' = Some agg \<and>
           agg = scale_matrix (louvain.aggregate_graph' lv) W \<and>
           shape agg = shape (louvain.aggregate_graph' lv) \<and>
           entries agg = map (\<lambda>(i, j, w). (i, j, w * W)) (entries (louvain.aggregate_graph' lv))"
  using assms(5) BiLouvain_fit_call_adjacency[OF assms(3)]
  by (simp add: BiLouvain_fit_Inr[OF assms(1-4)] scale_matrix_def)

theorem BiLouvain_fit_aggregate_graph_witness:
  "\<exists>self' agg.
     BiLouvain_fit ex_env ex_self ex_biadjacency (WeightsStr ''uniform'') (WeightsStr ''uniform'')
       False True = Inr self' \<and>
     bilouvain.aggregate_graph' self' = Some agg \<and>
     agg = scale_matrix (louvain.aggregate_graph' ex_louvain) 3 \<and>
     shape agg = shape (louvain.aggregate_graph' ex_louvain) \<and>
     entries agg = map (\<lambda>(i, j, w). (i, j, w * 3)) (entries (louvain.aggregate_graph' ex_louvain))"
proof -
  have W: "3 = total_weight (if False then bipartite2undirected ex_biadjacency
                             else bipartite2directed ex_biadjacency)"
    by (simp add: bipartite2directed_def ex_biadjacency_def total_weight_def data_def)
  show ?thesis
    by (rule BiLouvain_fit_aggregate_graph[OF ex_check_format ex_shape ex_fit_call
          ex_Louvain_fit W])
qed

text \<open>
  C4. When \<open>force_undirected\<close> is False, \<open>BiLouvain.fit\<close> builds a directed graph over
  \<open>n+p\<close> nodes whose edges run only between the row block and the column block, and
  fits the driver with the validated row probabilities zero-padded over the last \<open>p\<close>
  positions and the validated column probabilities zero-padded over the first \<open>n\<close>
  positions: the outcome of \<open>fit\<close> is the outcome of the driver on that graph and
  those two vectors.
\<close>

theorem BiLouvain_fit_call_directed:
  assumes "check_format env biadjacency = Inr B"
    and "well_formed B"
    and "shape B = (n, p)"
    and "check_probs env weights B = Inr row_probs"
    and "check_probs env feature_weights (transposed B) = Inr col_probs"
  shows "\<exists>call.
           BiLouvain_fit_call env self B weights feature_weights False = Inr call \<and>
           lc_adjacency call = bipartite2directed B \<and>
           shape (lc_adjacency call) = (n + p, n + p) \<and>
           (\<forall>(i, j, w) \<in> set (entries (lc_adjacency call)). between_blocks n p i j) \<and>
           lc_weights call = row_probs @ replicate p 0 \<and>
           lc_feature_weights call = Some (replicate n 0 @ col_probs) \<and>
           (\<forall>e. Louvain_fit env call = Inl e \<longrightarrow>
              BiLouvain_fit env self biadjacency weights feature_weights False sorted_cluster
                = Inl e) \<and>
           (\<forall>lv. Louvain_fit env call = Inr lv \<longrightarrow>
              (\<exists>self'. BiLouvain_fit env self biadjacency weights feature_weights False
                         sorted_cluster = Inr self' \<and>
                       bilouvain.iteration_count' self' = Some (louvain.iteration_count' lv)))"
proof -
  let ?call = "\<lparr>lc_algorithm = algorithm self, lc_verbose = verbose self,
                lc_adjacency = bipartite2directed B, lc_weights = row_probs @ replicate p 0,
                lc_feature_weights = Some (replicate n 0 @ col_probs)\<rparr>"
  have call: "BiLouvain_fit_call env self B weights feature_weights False = Inr ?call"
    using assms(3-5) by (simp add: BiLouvain_fit_call_def)
  have sh: "shape (bipartite2directed B) = (n + p, n + p)"
    using assms(3) by (simp add: bipartite2directed_def)
  have blocks: "\<forall>(i, j, w) \<in> set (entries (bipartite2directed B)). between_blocks n p i j"
    using assms(2,3)
    by (auto simp: bipartite2directed_def well_formed_def list_all_iff between_blocks_def)
  have err: "\<forall>e. Louvain_fit env ?call = Inl e \<longrightarrow>
      BiLouvain_fit env self biadjacency weights feature_weights False sorted_cluster = Inl e"
    using assms(1,3) call by (simp add: BiLouvain_fit_def)
  have ok: "\<forall>lv. Louvain_fit env ?call = Inr lv \<longrightarrow>
      (\<exists>self'. BiLouvain_fit env self biadjacency weights feature_weights False
                 sorted_cluster = Inr self' \<and>
               bilouvain.iteration_count' self' = Some (louvain.iteration_count' lv))"
    using assms(1,3) call by (simp add: BiLouvain_fit_def Let_def)
  show ?thesis
    using call sh blocks err ok by (intro exI[where x = ?call]) simp
qed

theorem BiLouvain_fit_call_directed_witness:
  "\<exists>call.
     BiLouvain_fit_call ex_env ex_self ex_biadjacency (WeightsStr ''uniform'')
       (WeightsStr ''uniform'') False = Inr call \<and>
     lc_adjacency call = bipartite2directed ex_biadjacency \<and>
     shape (lc_adjacency call) = (3 + 2, 3 + 2) \<and>
     (\<forall>(i, j, w) \<in> set (entries (lc_adjacency call)). between_blocks 3 2 i j) \<and>
     lc_weights call = [1 / 3, 1 / 3, 1 / 3] @ replicate 2 0 \<and>
     lc_feature_weights call = Some (replicate 3 0 @ [1 / 2, 1 / 2]) \<and>
     (\<forall>e. Louvain_fit ex_env call = Inl e \<longrightarrow>
        BiLouvain_fit ex_env ex_self ex_biadjacency (WeightsStr ''uniform'')
          (WeightsStr ''uniform'') False True = Inl e) \<and>
     (\<forall>lv. Louvain_fit ex_env call = Inr lv \<longrightarrow>
        (\<exists>self'. BiLouvain_fit ex_env ex_self ex_biadjacency (WeightsStr ''uniform'')
                   (WeightsStr ''uniform'') False True = Inr self' \<and>
                 bilouvain.iteration_count' self' = Some (louvain.iteration_count' lv)))"
proof -
  have wf: "well_formed ex_biadjacency"
    by (simp add: well_formed_def ex_biadjacency_def)
  show ?thesis
    by (rule BiLouvain_fit_call_directed[OF ex_check_format wf ex_shape ex_check_probs_rows
          ex_check_probs_cols])
qed




text \<open>
  C6. After every successful \<open>BiLouvain.fit\<close> with \<open>sorted_cluster = True\<close> on an
  \<open>n\<close>-by-\<open>p\<close> biadjacency matrix, each of the \<open>n+p\<close> nodes carries exactly one
  label, and the set of distinct values in the concatenation of \<open>labels_\<close> and
  \<open>feature_labels_\<close> is exactly \<open>{0, ..., n_clusters_ - 1}\<close>.
\<close>

theorem BiLouvain_fit_partition:
  assumes "check_format env biadjacency = Inr B"
    and "shape B = (n, p)"
    and "BiLouvain_fit_call env self B weights feature_weights force_undirected = Inr call"
    and "Louvain_fit env call = Inr lv"
    and "louvain_result_ok (n + p) lv"
  shows "\<exists>self' rows cols k.
           BiLouvain_fit env self biadjacency weights feature_weights force_undirected True
             = Inr self' \<and>
           bilouvain.labels' self' = Some rows \<and> feature_labels' self' = Some cols \<and>
           bilouvain.n_clusters' self' = Some k \<and>
           length rows = n \<and> length cols = p \<and>
           length (rows @ cols) = n + p \<and>
           set (rows @ cols) = {0..<k}"
proof -
  have len: "length (louvain.labels' lv) = n + p"
    and k: "louvain.n_clusters' lv = card (set (louvain.labels' lv))"
    using assms(5) by (simp_all add: louvain_result_ok_def)
  have "set (take n (reindex_clusters (louvain.labels' lv)))
          \<union> set (drop n (reindex_clusters (louvain.labels' lv)))
        = {0..<louvain.n_clusters' lv}"
    using set_append[of "take n (reindex_clusters (louvain.labels' lv))"
        "drop n (reindex_clusters (louvain.labels' lv))"]
    by (simp add: set_reindex_clusters k)
  then show ?thesis
    using len by (simp add: BiLouvain_fit_Inr[OF assms(1-4)] length_reindex_clusters)
qed

theorem BiLouvain_fit_partition_witness:
  "louvain_result_ok (3 + 2) ex_louvain \<and>
   (\<exists>self' rows cols k.
      BiLouvain_fit ex_env ex_self ex_biadjacency (WeightsStr ''uniform'') (WeightsStr ''uniform'')
        False True = Inr self' \<and>
      bilouvain.labels' self' = Some rows \<and> feature_labels' self' = Some cols \<and>
      bilouvain.n_clusters' self' = Some k \<and>
      length rows = 3 \<and> length cols = 2 \<and>
      length (rows @ cols) = 3 + 2 \<and>
      set (rows @ cols) = {0..<k})"
proof -
  have "set [0, 1, 1, 0, 1 :: nat] = {0, 1}"
    by auto
  then have "card (set [0, 1, 1, 0, 1 :: nat]) = 2"
    by simp
  then have ok: "louvain_result_ok (3 + 2) ex_louvain"
    by (simp add: louvain_result_ok_def ex_louvain_def)
  show ?thesis
    using ok BiLouvain_fit_partition[OF ex_check_format ex_shape ex_fit_call ex_Louvain_fit ok]
    by (rule conjI)
qed

text \<open>
  C8. The Cluster Reindexer is idempotent, and its output is a dense labeling starting at
  0 in which clusters are numbered by descending size with deterministic tie-breaking:
  the output has one label per node and induces the same partition as the input; its
  labels are exactly \<open>0..k-1\<close> for \<open>k\<close> the number of clusters; a smaller label never
  has a smaller cluster; and of two clusters of equal size the one with the smaller label
  is the one that appears first.
\<close>

theorem reindex_clusters_spec:
  "reindex_clusters (reindex_clusters labels) = reindex_clusters labels \<and>
   length (reindex_clusters labels) = length labels \<and>
   (\<forall>i < length labels. \<forall>j < length labels.
      (reindex_clusters labels ! i = reindex_clusters labels ! j) = (labels ! i = labels ! j)) \<and>
   set (reindex_clusters labels) = {0..<card (set labels)} \<and>
   (\<forall>a b. a < b \<and> b < card (set labels) \<longrightarrow>
      cluster_size (reindex_clusters labels) b \<le> cluster_size (reindex_clusters labels) a) \<and>
   (\<forall>a b. a < b \<and> b < card (set labels) \<and>
          cluster_size (reindex_clusters labels) a = cluster_size (reindex_clusters labels) b \<longrightarrow>
      index_of (reindex_clusters labels) a < index_of (reindex_clusters labels) b)"
proof (intro conjI allI impI)
  show "reindex_clusters (reindex_clusters labels) = reindex_clusters labels"
    by (rule reindex_clusters_idem)
  show "length (reindex_clusters labels) = length labels"
    by (simp add: reindex_clusters_def)
  show "set (reindex_clusters labels) = {0..<card (set labels)}"
    by (rule set_reindex_clusters)
next
  fix i j assume "i < length labels" "j < length labels"
  then show "(reindex_clusters labels ! i = reindex_clusters labels ! j) = (labels ! i = labels ! j)"
    by (rule reindex_clusters_same_partition)
next
  fix a b assume "a < b \<and> b < card (set labels)"
  then show "cluster_size (reindex_clusters labels) b \<le> cluster_size (reindex_clusters labels) a"
    by (intro reindex_clusters_descending) simp_all
next
  fix a b
  assume "a < b \<and> b < card (set labels) \<and>
          cluster_size (reindex_clusters labels) a = cluster_size (reindex_clusters labels) b"
  then show "index_of (reindex_clusters labels) a < index_of (reindex_clusters labels) b"
    by (intro reindex_clusters_ties) simp_all
qed

theorem reindex_clusters_spec_witness:
  "reindex_clusters (reindex_clusters [5, 5, 3, 3, 7, 7, 7, 2])
     = reindex_clusters [5, 5, 3, 3, 7, 7, 7, 2] \<and>
   reindex_clusters [5, 5, 3, 3, 7, 7, 7, 2] = [1, 1, 2, 2, 0, 0, 0, 3] \<and>
   (1 :: nat) < 2 \<and> (2 :: nat) < card (set [5, 5, 3, 3, 7, 7, 7, 2 :: nat]) \<and>
   cluster_size (reindex_clusters [5, 5, 3, 3, 7, 7, 7, 2]) 1
     = cluster_size (reindex_clusters [5, 5, 3, 3, 7, 7, 7, 2]) 2 \<and>
   index_of (reindex_clusters [5, 5, 3, 3, 7, 7, 7, 2]) 1
     < index_of (reindex_clusters [5, 5, 3, 3, 7, 7, 7, 2]) 2"
proof -
  let ?L = "[5, 5, 3, 3, 7, 7, 7, 2 :: nat]"
  have r: "reindex_clusters ?L = [1, 1, 2, 2, 0, 0, 0, 3]"
    by (simp add: reindex_clusters_def sorted_clusters_def cluster_size_def)
  have c: "(1 :: nat) < 2 \<and> (2 :: nat) < card (set ?L)"
    by simp
  have s: "cluster_size (reindex_clusters ?L) 1 = cluster_size (reindex_clusters ?L) 2"
    by (simp add: r cluster_size_def)
  have idem: "reindex_clusters (reindex_clusters ?L) = reindex_clusters ?L"
    using reindex_clusters_spec[of ?L] by (rule conjunct1)
  have "\<forall>a b. a < b \<and> b < card (set ?L) \<and>
          cluster_size (reindex_clusters ?L) a = cluster_size (reindex_clusters ?L) b \<longrightarrow>
          index_of (reindex_clusters ?L) a < index_of (reindex_clusters ?L) b"
    using reindex_clusters_spec[of ?L] by blast
  then have "index_of (reindex_clusters ?L) 1 < index_of (reindex_clusters ?L) 2"
    using c s by blast
  then show ?thesis using idem r c s by blast
qed




text \<open>
  C10. \<open>KMeans.fit\<close> raises a \<open>ValueError\<close> when \<open>n_clusters\<close> exceeds the number of
  nodes, whatever the collaborators are (no embedding is computed) and leaving the
  object, \<open>labels_\<close> included, unchanged; likewise \<open>BiKMeans.fit\<close> raises a
  \<open>ValueError\<close> when \<open>n_clusters\<close> exceeds the number of rows, also when \<open>co_cluster\<close>
  is True.
\<close>

theorem fit_too_many_clusters:
  "(n_clusters self > int (fst (shape adjacency)) \<longrightarrow>
      KMeans_fit env self adjacency = (self, Some ValueError) \<and>
      kmeans.labels' (fst (KMeans_fit env self adjacency)) = kmeans.labels' self \<and>
      embedding_method (fst (KMeans_fit env self adjacency)) = embedding_method self) \<and>
   (n_clusters bself > int (fst (shape biadjacency)) \<longrightarrow>
      BiKMeans_fit env bself biadjacency = (bself, Some ValueError))"
proof (intro conjI impI)
  assume k: "n_clusters self > int (fst (shape adjacency))"
  then show raise: "KMeans_fit env self adjacency = (self, Some ValueError)"
    by (simp add: KMeans_fit_def)
  show "kmeans.labels' (fst (KMeans_fit env self adjacency)) = kmeans.labels' self"
    by (simp add: raise)
  show "embedding_method (fst (KMeans_fit env self adjacency)) = embedding_method self"
    by (simp add: raise)
next
  assume "n_clusters bself > int (fst (shape biadjacency))"
  then show "BiKMeans_fit env bself biadjacency = (bself, Some ValueError)"
    by (cases "shape biadjacency") (simp add: BiKMeans_fit_def)
qed

theorem fit_too_many_clusters_witness:
  "n_clusters ex_kmeans > int (fst (shape ex_graph)) \<and>
   KMeans_fit ex_clustering_env ex_kmeans ex_graph = (ex_kmeans, Some ValueError) \<and>
   n_clusters ex_bikmeans > int (fst (shape ex_biadjacency)) \<and> co_cluster ex_bikmeans \<and>
   int (fst (shape ex_biadjacency) + snd (shape ex_biadjacency)) \<ge> n_clusters ex_bikmeans \<and>
   BiKMeans_fit ex_clustering_env ex_bikmeans ex_biadjacency = (ex_bikmeans, Some ValueError)"
proof -
  have k: "n_clusters ex_kmeans > int (fst (shape ex_graph))"
    by (simp add: ex_kmeans_def ex_graph_def)
  have b: "n_clusters ex_bikmeans > int (fst (shape ex_biadjacency))"
    by (simp add: ex_bikmeans_def ex_biadjacency_def)
  have c: "co_cluster ex_bikmeans \<and>
       int (fst (shape ex_biadjacency) + snd (shape ex_biadjacency)) \<ge> n_clusters ex_bikmeans"
    by (simp add: ex_bikmeans_def ex_biadjacency_def)
  show ?thesis
    using fit_too_many_clusters[where self=ex_kmeans and adjacency=ex_graph
        and env=ex_clustering_env and bself=ex_bikmeans and biadjacency=ex_biadjacency] k b c
    by blast
qed

end
